theory Spec2Isabelle
  imports Main "HOL-Library.Sublist"
begin

section \<open>Python values shared by the components\<close>

text \<open>
  A Python \<^verbatim>\<open>str\<close> is a sequence of Unicode code points; a code point is a natural
  number. \<open>py\<close> reads an ASCII literal as such a string.
\<close>

type_synonym pystr = "nat list"

definition py :: "string \<Rightarrow> pystr" where
  "py cs = map of_char cs"

text \<open>
  Exceptions are values. \<open>exc_type\<close> is the class of the exception (what an
  \<^verbatim>\<open>except\<close> clause tests), \<open>Exc\<close> carries its message. \<open>OtherException\<close> stands
  for every further subclass of \<^verbatim>\<open>Exception\<close>. \<open>RetryError\<close> is tenacity's wrapper
  around the exception of the last attempt.
\<close>

datatype exc_type =
    ModelNotFoundError
  | RuntimeError
  | NotImplementedError
  | ValueError
  | JSONDecodeError
  | AttributeError
  | TypeError
  | OtherException nat

datatype exn = Exc exc_type pystr | RetryError exn

text \<open>
  The values \<^verbatim>\<open>json.loads\<close> returns. A dict keeps its items in insertion order; a float
  is carried by its literal.
\<close>

datatype json =
    JNull
  | JBool bool
  | JInt int
  | JFloat pystr
  | JStr pystr
  | JList "json list"
  | JDict "(pystr \<times> json) list"


section \<open>structures.py: the News record\<close>

record News =
  title :: pystr
  raw_content :: pystr
  url :: pystr
  id' :: pystr
  source :: pystr
  scraped_at :: pystr
  published_date :: "pystr option"
  author :: "pystr option"
  categories :: "pystr list option"
  tags :: "pystr list option"
  description :: "pystr option"
  text_content :: pystr
  summary :: "pystr option"
  metadata :: "(pystr \<times> json) list option"

text \<open>
  \<^verbatim>\<open>__hash__\<close> is \<^verbatim>\<open>hash(f"{self.id}-{self.source}")\<close>. Python's string hash is a
  parameter \<open>h\<close>; \<open>hash_key\<close> is the formatted string it is applied to.
\<close>

definition hash_key :: "News \<Rightarrow> pystr" where
  "hash_key n = id' n @ py ''-'' @ source n"

definition News_hash :: "(pystr \<Rightarrow> 'h) \<Rightarrow> News \<Rightarrow> 'h" where
  "News_hash h n = h (hash_key n)"

definition News_eq :: "News \<Rightarrow> News \<Rightarrow> bool" where
  "News_eq self other \<longleftrightarrow> id' self = id' other \<and> source self = source other"

text \<open>
  The constructor, with the fields the caller leaves out at their declared defaults. The
  defaults of \<^verbatim>\<open>id\<close> and \<^verbatim>\<open>scraped_at\<close> come from \<^verbatim>\<open>uuid4()\<close> and the clock, so they
  are arguments here.
\<close>

definition News_init :: "pystr \<Rightarrow> pystr \<Rightarrow> pystr \<Rightarrow> pystr \<Rightarrow> pystr \<Rightarrow> pystr \<Rightarrow> News" where
  "News_init title_arg raw url_arg id_arg source_arg now =
     \<lparr>title = title_arg, raw_content = raw, url = url_arg, id' = id_arg, source = source_arg,
      scraped_at = now, published_date = None, author = None, categories = Some [],
      tags = Some [], description = Some [], text_content = [], summary = None,
      metadata = Some []\<rparr>"


section \<open>services/queue: the two queue backends\<close>

record AbstractQueue =
  queue_name :: pystr

subsection \<open>list\_queue.py\<close>

text \<open>The deque is a list whose head is the left end.\<close>

record 'a ListQueue = AbstractQueue +
  queue :: "'a list"

definition ListQueue_init :: "pystr \<Rightarrow> 'a ListQueue" where
  "ListQueue_init name = \<lparr>queue_name = name, queue = []\<rparr>"

definition ListQueue_enqueue :: "'a ListQueue \<Rightarrow> 'a \<Rightarrow> 'a ListQueue" where
  "ListQueue_enqueue self item = self\<lparr>queue := queue self @ [item]\<rparr>"

definition ListQueue_dequeue :: "'a ListQueue \<Rightarrow> 'a option \<times> 'a ListQueue" where
  "ListQueue_dequeue self =
     (case queue self of
        [] \<Rightarrow> (None, self)
      | item # rest \<Rightarrow> (Some item, self\<lparr>queue := rest\<rparr>))"

text \<open>
  \<^verbatim>\<open>dequeue_generator\<close>, run to exhaustion: the values it yields, in order, and the
  queue it leaves.
\<close>

function ListQueue_dequeue_generator :: "'a ListQueue \<Rightarrow> 'a option list \<times> 'a ListQueue" where
  "ListQueue_dequeue_generator self =
     (if queue self \<noteq> [] then
        (case ListQueue_dequeue self of
           (item, self') \<Rightarrow>
             (case ListQueue_dequeue_generator self' of
                (items, self'') \<Rightarrow> (item # items, self'')))
      else ([], self))"
  by pat_completeness auto
termination
  by (relation "measure (\<lambda>self. length (queue self))")
     (auto simp: ListQueue_dequeue_def split: list.splits)

definition ListQueue_size :: "'a ListQueue \<Rightarrow> nat" where
  "ListQueue_size self = length (queue self)"

definition ListQueue_clear :: "'a ListQueue \<Rightarrow> 'a ListQueue" where
  "ListQueue_clear self = self\<lparr>queue := []\<rparr>"

subsection \<open>redis\_queue.py\<close>

text \<open>
  The Redis server is the state: each key holds a list whose head is its left end, and a
  key that is not set holds the empty list. The four list commands the client issues:
\<close>

type_synonym 'a redis = "pystr \<Rightarrow> 'a list"

definition lpush :: "'a redis \<Rightarrow> pystr \<Rightarrow> 'a \<Rightarrow> 'a redis" where
  "lpush r k v = r(k := v # r k)"

definition rpop :: "'a redis \<Rightarrow> pystr \<Rightarrow> 'a option \<times> 'a redis" where
  "rpop r k = (if r k = [] then (None, r) else (Some (last (r k)), r(k := butlast (r k))))"

definition lpop :: "'a redis \<Rightarrow> pystr \<Rightarrow> 'a option \<times> 'a redis" where
  "lpop r k = (case r k of [] \<Rightarrow> (None, r) | v # vs \<Rightarrow> (Some v, r(k := vs)))"

definition llen :: "'a redis \<Rightarrow> pystr \<Rightarrow> nat" where
  "llen r k = length (r k)"

definition delete :: "'a redis \<Rightarrow> pystr \<Rightarrow> 'a redis" where
  "delete r k = r(k := [])"

definition RedisQueue_enqueue :: "AbstractQueue \<Rightarrow> 'a \<Rightarrow> 'a redis \<Rightarrow> 'a redis" where
  "RedisQueue_enqueue self item r = lpush r (queue_name self) item"

definition RedisQueue_dequeue :: "AbstractQueue \<Rightarrow> 'a redis \<Rightarrow> 'a option \<times> 'a redis" where
  "RedisQueue_dequeue self r = rpop r (queue_name self)"

function RedisQueue_dequeue_generator :: "AbstractQueue \<Rightarrow> 'a redis \<Rightarrow> 'a list \<times> 'a redis" where
  "RedisQueue_dequeue_generator self r =
     (case lpop r (queue_name self) of
        (None, r') \<Rightarrow> ([], r')
      | (Some item, r') \<Rightarrow>
          (case RedisQueue_dequeue_generator self r' of
             (items, r'') \<Rightarrow> (item # items, r'')))"
  by pat_completeness auto
termination
  by (relation "measure (\<lambda>(self, r). length (r (queue_name self)))")
     (auto simp: lpop_def split: list.splits)

definition RedisQueue_size :: "AbstractQueue \<Rightarrow> 'a redis \<Rightarrow> nat" where
  "RedisQueue_size self r = llen r (queue_name self)"

definition RedisQueue_clear :: "AbstractQueue \<Rightarrow> 'a redis \<Rightarrow> 'a redis" where
  "RedisQueue_clear self r = delete r (queue_name self)"



declare ListQueue_dequeue_generator.simps [simp del]
declare RedisQueue_dequeue_generator.simps [simp del]


section \<open>services/utils.py: SingletonMeta\<close>

text \<open>
  Objects are references (addresses); a new object gets the reference \<open>next_ref\<close>.
  \<open>instances\<close> is the class attribute \<^verbatim>\<open>_instances\<close>, a dict keyed by (class, key).
  \<open>construct\<close> is \<^verbatim>\<open>super().__call__(*args, **kwargs)\<close>: the class's constructor, which
  either raises (\<open>Some e\<close>) or initialises the new object (\<open>None\<close>).
\<close>

record 'c singletons =
  instances :: "('c \<times> pystr) \<rightharpoonup> nat"
  next_ref :: nat



text \<open>
  The registry of a running process: every registered instance has been allocated, and
  no instance is registered under two keys.
\<close>

definition registry_ok :: "'c singletons \<Rightarrow> bool" where
  "registry_ok st \<longleftrightarrow>
     (\<forall>k r. instances st k = Some r \<longrightarrow> r < next_ref st) \<and>
     (\<forall>k k' r. instances st k = Some r \<and> instances st k' = Some r \<longrightarrow> k = k')"


section \<open>services/channel: dispatch and inbound channels\<close>

datatype channel_class =
    BaseChannel
  | BaseDispatchChannel
  | SlackDispatchChannel
  | BaseInboundChannel

text \<open>The method bodies the classes define.\<close>

definition BaseChannel_send :: "News \<Rightarrow> exn + 'r" where
  "BaseChannel_send news = Inl (Exc NotImplementedError [])"

definition BaseChannel_receive :: "exn + pystr" where
  "BaseChannel_receive = Inl (Exc NotImplementedError [])"

definition BaseDispatchChannel_receive :: "exn + pystr" where
  "BaseDispatchChannel_receive =
     Inl (Exc RuntimeError (py ''Dispatch channels cannot receive messages.''))"

definition BaseInboundChannel_receive :: "exn + pystr" where
  "BaseInboundChannel_receive =
     Inl (Exc RuntimeError (py ''Dispatch channels cannot receive messages.''))"

text \<open>
  Method lookup: \<open>receive cls\<close> and \<open>send slack_send cls news\<close> are what the calls
  \<^verbatim>\<open>receive(**kwargs)\<close> and \<^verbatim>\<open>send(news, **kwargs)\<close> run on an object of class \<open>cls\<close>,
  the body the class defines or else the one it inherits. \<^verbatim>\<open>send\<close> is defined by
  \<^verbatim>\<open>BaseChannel\<close> and \<^verbatim>\<open>SlackDispatchChannel\<close> only; the Slack body (formatting and
  the webhook request) is the parameter \<open>slack_send\<close>.
\<close>

fun receive :: "channel_class \<Rightarrow> exn + pystr" where
  "receive BaseChannel = BaseChannel_receive"
| "receive BaseDispatchChannel = BaseDispatchChannel_receive"
| "receive SlackDispatchChannel = BaseDispatchChannel_receive"
| "receive BaseInboundChannel = BaseInboundChannel_receive"

fun send :: "(News \<Rightarrow> exn + 'r) \<Rightarrow> channel_class \<Rightarrow> News \<Rightarrow> exn + 'r" where
  "send slack_send BaseChannel news = BaseChannel_send news"
| "send slack_send BaseDispatchChannel news = BaseChannel_send news"
| "send slack_send SlackDispatchChannel news = slack_send news"
| "send slack_send BaseInboundChannel news = BaseChannel_send news"


section \<open>Python's string methods used by the summarizer and the providers\<close>

text \<open>
  \<^verbatim>\<open>str.isspace\<close> on one code point. The regular expression class \<^verbatim>\<open>\s\<close> (on a
  \<^verbatim>\<open>str\<close> pattern) and \<^verbatim>\<open>str.strip()\<close> use the same set of code points.
\<close>

definition isspace :: "nat \<Rightarrow> bool" where
  "isspace c \<longleftrightarrow>
     (9 \<le> c \<and> c \<le> 13) \<or> (28 \<le> c \<and> c \<le> 32) \<or> c = 133 \<or> c = 160 \<or> c = 5760 \<or>
     (8192 \<le> c \<and> c \<le> 8202) \<or> c = 8232 \<or> c = 8233 \<or> c = 8239 \<or> c = 8287 \<or> c = 12288"

definition strip :: "pystr \<Rightarrow> pystr" where
  "strip s = rev (dropWhile isspace (rev (dropWhile isspace s)))"

text \<open>\<^verbatim>\<open>s.split(":")[-1]\<close>: what follows the last colon (code point 58).\<close>

definition last_segment :: "pystr \<Rightarrow> pystr" where
  "last_segment s = rev (takeWhile (\<lambda>c. c \<noteq> 58) (rev s))"


section \<open>services/summarizer/base.py: BaseLLMProvider\<close>

text \<open>
  The OpenAI client is the provider's environment: \<open>models_list\<close> is the outcome of
  \<^verbatim>\<open>self._client.models.list()\<close> (the names of the advertised models, or the exception
  it raises), \<open>chat_create model prompt\<close> the outcome of the chat completion request
  (the content of the first choice, or the exception raised on the way to it).
\<close>

record client =
  models_list :: "exn + pystr list"
  chat_create :: "pystr \<Rightarrow> pystr \<Rightarrow> exn + pystr"

text \<open>What a call does to the outside world, in order.\<close>

datatype request = ModelsList | ChatCompletion pystr | Sleep

text \<open>\<^verbatim>\<open>str.lower\<close> is the parameter \<open>lower\<close>.\<close>

definition check_model_exists ::
  "(pystr \<Rightarrow> pystr) \<Rightarrow> client \<Rightarrow> pystr \<Rightarrow> exn + bool" where
  "check_model_exists lower self model_name =
     (case models_list self of
        Inl e \<Rightarrow> Inl e
      | Inr names \<Rightarrow>
          Inr (lower model_name \<in> set (map (\<lambda>name. lower (strip (last_segment name))) names)))"

text \<open>The body of \<^verbatim>\<open>call\<close>, one attempt: its outcome and the requests it issued.\<close>

definition call_body ::
  "(pystr \<Rightarrow> pystr) \<Rightarrow> client \<Rightarrow> pystr \<Rightarrow> pystr \<Rightarrow> (exn + pystr) \<times> request list" where
  "call_body lower self model_name user_prompt =
     (case check_model_exists lower self model_name of
        Inl e \<Rightarrow> (Inl e, [ModelsList])
      | Inr False \<Rightarrow>
          (Inl (Exc ModelNotFoundError (py ''Model '' @ model_name @ py '' not found.'')),
           [ModelsList])
      | Inr True \<Rightarrow>
          (case chat_create self model_name user_prompt of
             Inl e \<Rightarrow> (Inr [], [ModelsList, ChatCompletion model_name])
           | Inr content \<Rightarrow> (Inr content, [ModelsList, ChatCompletion model_name])))"

text \<open>
  \<^verbatim>\<open>call\<close> is the body under \<^verbatim>\<open>@retry(wait=wait_random_exponential(min=2, max=6),
  stop=stop_after_attempt(2))\<close>. With tenacity's defaults an attempt that raises any
  \<^verbatim>\<open>Exception\<close> is retried after the wait, and when the stop condition holds the last
  exception is raised wrapped in \<^verbatim>\<open>RetryError\<close>.
\<close>

definition BaseLLMProvider_call ::
  "(pystr \<Rightarrow> pystr) \<Rightarrow> client \<Rightarrow> pystr \<Rightarrow> pystr \<Rightarrow> (exn + pystr) \<times> request list" where
  "BaseLLMProvider_call lower self model_name user_prompt =
     (case call_body lower self model_name user_prompt of
        (Inr res, reqs) \<Rightarrow> (Inr res, reqs)
      | (Inl e, reqs) \<Rightarrow>
          (case call_body lower self model_name user_prompt of
             (Inr res, reqs') \<Rightarrow> (Inr res, reqs @ [Sleep] @ reqs')
           | (Inl e', reqs') \<Rightarrow> (Inl (RetryError e'), reqs @ [Sleep] @ reqs')))"


section \<open>services/summarizer/llm\_providers.py: ProviderFactory\<close>

datatype provider_class = OpenRouterProvider | OpenAIProvider

definition PROVIDERS :: "pystr \<rightharpoonup> provider_class" where
  "PROVIDERS = [py ''openrouter'' \<mapsto> OpenRouterProvider, py ''openai'' \<mapsto> OpenAIProvider]"

definition get_provider :: "pystr \<Rightarrow> exn + provider_class" where
  "get_provider provider_name =
     (case PROVIDERS provider_name of
        None \<Rightarrow> Inl (Exc ModelNotFoundError (py ''Provider '' @ provider_name @ py '' not found.''))
      | Some provider \<Rightarrow> Inr provider)"


section \<open>services/summarizer/summarizer.py: Summarizer\<close>

subsection \<open>normalize\_text\<close>

text \<open>
  \<^verbatim>\<open>re.sub(r"(\s)\1+", r"\1", text)\<close>: scanning from the left, a whitespace character
  followed by at least one copy of itself matches together with all the copies that
  follow, and the match is replaced by the one character.
\<close>

function re_sub :: "pystr \<Rightarrow> pystr" where
  "re_sub [] = []"
| "re_sub [x] = [x]"
| "re_sub (x # y # xs) =
     (if isspace x \<and> y = x then x # re_sub (dropWhile (\<lambda>c. c = x) xs)
      else x # re_sub (y # xs))"
  by pat_completeness auto
termination
  by (relation "measure length") (auto intro: le_imp_less_Suc length_dropWhile_le less_SucI)

declare re_sub.simps [simp del]

definition normalize_text :: "pystr \<Rightarrow> pystr" where
  "normalize_text text = strip (re_sub text)"

text \<open>
  The normalisation as the specification words it: the text is cut into its maximal
  runs of one repeated character, a run of two or more copies of a whitespace character
  is collapsed to one copy, every other run is kept, and the result is stripped.
\<close>

function runs :: "'a list \<Rightarrow> 'a list list" where
  "runs [] = []"
| "runs (x # xs) = (x # takeWhile (\<lambda>c. c = x) xs) # runs (dropWhile (\<lambda>c. c = x) xs)"
  by pat_completeness auto
termination
  by (relation "measure length") (auto intro: le_imp_less_Suc length_dropWhile_le)

declare runs.simps [simp del]

definition collapse_run :: "pystr \<Rightarrow> pystr" where
  "collapse_run r = (case r of x # y # ys \<Rightarrow> (if isspace x then [x] else r) | _ \<Rightarrow> r)"

definition spec_normalize :: "pystr \<Rightarrow> pystr" where
  "spec_normalize text = strip (concat (map collapse_run (runs text)))"

text \<open>A text has a whitespace run when a whitespace character is followed by a copy of itself.\<close>

fun ws_run :: "pystr \<Rightarrow> bool" where
  "ws_run (x # y # xs) = ((isspace x \<and> y = x) \<or> ws_run (y # xs))"
| "ws_run xs = False"

subsection \<open>extract\_json\<close>









subsection \<open>load\_json and summarize\<close>


text \<open>
  A Summarizer holds its provider (the provider's \<^verbatim>\<open>call\<close>, from model name and prompt
  to the text it returns or the exception it raises) and its model name.
\<close>

record Summarizer =
  provider :: "pystr \<Rightarrow> pystr \<Rightarrow> exn + pystr"
  model :: pystr



section \<open>services/scraper: BaseScraper and ScraperFactory\<close>

text \<open>
  A scraper object: the name of its class, and its \<^verbatim>\<open>_scrape\<close>, which returns a list of
  News or raises. The keyword arguments are passed through unread.
\<close>

record 'k scraper =
  class_name :: pystr
  scrape_impl :: "'k \<Rightarrow> exn + News list"

text \<open>The error-level entries of the log.\<close>

datatype log_entry = ErrorOccurred pystr exn | Traceback exn

definition BaseScraper_scrape :: "'k scraper \<Rightarrow> 'k \<Rightarrow> News list \<times> log_entry list" where
  "BaseScraper_scrape self kwargs =
     (case scrape_impl self kwargs of
        Inr news_list \<Rightarrow> (news_list, [])
      | Inl e \<Rightarrow> ([], [ErrorOccurred (class_name self) e, Traceback e]))"

text \<open>\<^verbatim>\<open>xs[:k]\<close>: a negative \<open>k\<close> counts from the end.\<close>

definition slice_to :: "'a list \<Rightarrow> int \<Rightarrow> 'a list" where
  "slice_to xs k = (if 0 \<le> k then take (nat k) xs else take (nat (int (length xs) + k)) xs)"

text \<open>
  \<^verbatim>\<open>ScraperFactory.scrape\<close>: the loop over \<^verbatim>\<open>self.scrapers\<close>, carrying \<^verbatim>\<open>news_list\<close>,
  the queue and the log. \<open>dump\<close> is \<^verbatim>\<open>model_dump_json\<close>.
\<close>

fun scrape_loop ::
  "(News \<Rightarrow> pystr) \<Rightarrow> int option \<Rightarrow> 'k \<Rightarrow> 'k scraper list \<Rightarrow>
   News list \<times> pystr ListQueue \<times> log_entry list \<Rightarrow> News list \<times> pystr ListQueue \<times> log_entry list" where
  "scrape_loop dump limit kwargs [] st = st"
| "scrape_loop dump limit kwargs (s # ss) (news_list, q, lg) =
     (case BaseScraper_scrape s kwargs of
        (scraped, entries) \<Rightarrow>
          (let scraped_news = (case limit of None \<Rightarrow> scraped | Some k \<Rightarrow> slice_to scraped k)
           in scrape_loop dump limit kwargs ss
                (news_list @ scraped_news,
                 foldl ListQueue_enqueue q (map dump scraped_news),
                 lg @ entries)))"

definition ScraperFactory_scrape ::
  "(News \<Rightarrow> pystr) \<Rightarrow> 'k scraper list \<Rightarrow> pystr ListQueue \<Rightarrow> int option \<Rightarrow> 'k \<Rightarrow>
   News list \<times> pystr ListQueue \<times> log_entry list" where
  "ScraperFactory_scrape dump scrapers q limit kwargs =
     scrape_loop dump limit kwargs scrapers ([], q, [])"



section \<open>Properties of the News record\<close>

text \<open>
  Claim C5, as the code has it. Two records compare equal exactly when their
  (id, source) pairs match; records that compare equal have equal hashes; and a record
  that agrees with another on id and source is interchangeable with it in every
  comparison and has the same hash, whatever its other fields hold. The converse for
  hashes is not part of the statement: the hash is taken of the string
  \<^verbatim>\<open>f"{id}-{source}"\<close>, on which unequal records can agree.
\<close>

theorem News_identity:
  "(News_eq a b \<longleftrightarrow> (id' a, source a) = (id' b, source b)) \<and>
   (News_eq a b \<longrightarrow> News_hash h a = News_hash h b) \<and>
   (id' a' = id' a \<and> source a' = source a \<longrightarrow>
      News_eq a' b = News_eq a b \<and> News_hash h a' = News_hash h a)"
  by (auto simp: News_eq_def News_hash_def hash_key_def)

theorem News_identity_witness:
  "News_eq (News_init (py ''t1'') (py ''r1'') (py ''u'') (py ''7'') (py ''HackerNews'') (py ''now''))
           (News_init (py ''t2'') (py ''r2'') (py ''u'') (py ''7'') (py ''HackerNews'') (py ''then'')) \<and>
   News_hash (\<lambda>k. k) (News_init (py ''t1'') (py ''r1'') (py ''u'') (py ''7'') (py ''HackerNews'') (py ''now''))
   = News_hash (\<lambda>k. k) (News_init (py ''t2'') (py ''r2'') (py ''u'') (py ''7'') (py ''HackerNews'') (py ''then''))"
proof -
  let ?a = "News_init (py ''t1'') (py ''r1'') (py ''u'') (py ''7'') (py ''HackerNews'') (py ''now'')"
  let ?b = "News_init (py ''t2'') (py ''r2'') (py ''u'') (py ''7'') (py ''HackerNews'') (py ''then'')"
  have key: "(id' ?a, source ?a) = (id' ?b, source ?b)"
    by (simp add: News_init_def)
  from News_identity [where a = ?a and b = ?b and h = "\<lambda>k. k" and a' = ?b] key
  show ?thesis by blast
qed

text \<open>
  Two records with different (id, source) pairs and the same hash, even under a hash
  function that never maps two strings to one value: id \<^verbatim>\<open>a-b\<close> with source \<^verbatim>\<open>c\<close>, and
  id \<^verbatim>\<open>a\<close> with source \<^verbatim>\<open>b-c\<close>.
\<close>

theorem News_hash_collision:
  "News_hash (\<lambda>k. k) (News_init (py ''t'') (py ''r'') (py ''u'') (py ''a-b'') (py ''c'') (py ''now''))
   = News_hash (\<lambda>k. k) (News_init (py ''t'') (py ''r'') (py ''u'') (py ''a'') (py ''b-c'') (py ''now'')) \<and>
   \<not> News_eq (News_init (py ''t'') (py ''r'') (py ''u'') (py ''a-b'') (py ''c'') (py ''now''))
             (News_init (py ''t'') (py ''r'') (py ''u'') (py ''a'') (py ''b-c'') (py ''now''))"
  by (simp add: News_init_def News_hash_def hash_key_def News_eq_def py_def)


section \<open>Properties of the queue backends\<close>

text \<open>Draining the in-process queue yields its items from the left end, and empties it.\<close>

lemma ListQueue_drain: "ListQueue_dequeue_generator self = (map Some (queue self), self\<lparr>queue := []\<rparr>)"
proof (induction "queue self" arbitrary: self)
  case Nil
  then show ?case by (subst ListQueue_dequeue_generator.simps) simp
next
  case (Cons x xs)
  from Cons(2) have q: "queue self = x # xs" by simp
  have "xs = queue (self\<lparr>queue := xs\<rparr>)" by simp
  from Cons(1)[OF this] q show ?case
    by (subst ListQueue_dequeue_generator.simps) (simp add: ListQueue_dequeue_def)
qed

lemma ListQueue_enqueue_all:
  "foldl ListQueue_enqueue self xs = self\<lparr>queue := queue self @ xs\<rparr>"
  by (induction xs arbitrary: self) (simp_all add: ListQueue_enqueue_def)

lemma ListQueue_fifo:
  "ListQueue_dequeue_generator (foldl ListQueue_enqueue (ListQueue_init name) xs)
   = (map Some xs, ListQueue_init name)"
  by (simp add: ListQueue_drain ListQueue_enqueue_all ListQueue_init_def)

lemma ListQueue_three_dequeues:
  "ListQueue_dequeue (ListQueue_enqueue (ListQueue_enqueue (ListQueue_enqueue
      (ListQueue_init name) a) b) c) = (Some a, \<lparr>queue_name = name, queue = [b, c]\<rparr>) \<and>
   ListQueue_dequeue \<lparr>queue_name = name, queue = [b, c]\<rparr>
     = (Some b, \<lparr>queue_name = name, queue = [c]\<rparr>) \<and>
   ListQueue_dequeue \<lparr>queue_name = name, queue = [c]\<rparr>
     = (Some c, \<lparr>queue_name = name, queue = []\<rparr>) \<and>
   ListQueue_dequeue \<lparr>queue_name = name, queue = []\<rparr>
     = (None, \<lparr>queue_name = name, queue = []\<rparr>)"
  by (simp add: ListQueue_dequeue_def ListQueue_enqueue_def ListQueue_init_def)

text \<open>
  Draining the Redis queue yields the list under its key from the left end, which is
  the end \<^verbatim>\<open>enqueue\<close> pushes to.
\<close>

lemma RedisQueue_drain:
  "RedisQueue_dequeue_generator self r = (r (queue_name self), r(queue_name self := []))"
proof (induction "r (queue_name self)" arbitrary: r)
  case Nil
  then show ?case by (subst RedisQueue_dequeue_generator.simps) (auto simp: lpop_def split: list.splits)
next
  case (Cons x xs)
  from Cons(2) have q: "r (queue_name self) = x # xs" by simp
  have "xs = (r(queue_name self := xs)) (queue_name self)" by simp
  from Cons(1)[of "r(queue_name self := xs)", OF this] q show ?case
    by (subst RedisQueue_dequeue_generator.simps) (simp add: lpop_def)
qed

text \<open>Three calls of \<^verbatim>\<open>dequeue\<close> return the items in the order they were enqueued.\<close>

lemma RedisQueue_three_dequeues:
  "RedisQueue_dequeue self (RedisQueue_enqueue self c (RedisQueue_enqueue self b
      (RedisQueue_enqueue self a (\<lambda>k. []))))
     = (Some a, (\<lambda>k. [])(queue_name self := [c, b])) \<and>
   RedisQueue_dequeue self ((\<lambda>k. [])(queue_name self := [c, b]))
     = (Some b, (\<lambda>k. [])(queue_name self := [c])) \<and>
   RedisQueue_dequeue self ((\<lambda>k. [])(queue_name self := [c]))
     = (Some c, (\<lambda>k. [])(queue_name self := [])) \<and>
   fst (RedisQueue_dequeue self ((\<lambda>k. [])(queue_name self := []))) = None"
  by (simp add: RedisQueue_dequeue_def RedisQueue_enqueue_def lpush_def rpop_def)

text \<open>
  Claim C2 at the input where the code departs from it: on a fresh Redis queue, after
  enqueueing a, b and c, the generator yields c, b, a.
\<close>

theorem RedisQueue_generator_reverses:
  "fst (RedisQueue_dequeue_generator self
         (RedisQueue_enqueue self c (RedisQueue_enqueue self b (RedisQueue_enqueue self a (\<lambda>k. [])))))
   = [c, b, a]"
  by (simp add: RedisQueue_drain RedisQueue_enqueue_def lpush_def)


section \<open>Properties of SingletonMeta\<close>






lemma registry_ok_empty: "registry_ok \<lparr>instances = Map.empty, next_ref = n\<rparr>"
  by (simp add: registry_ok_def)



section \<open>Properties of the channels\<close>

lemma dispatch_receive_rejected:
  "receive BaseDispatchChannel = Inl (Exc RuntimeError (py ''Dispatch channels cannot receive messages.'')) \<and>
   receive SlackDispatchChannel = Inl (Exc RuntimeError (py ''Dispatch channels cannot receive messages.''))"
  by (simp add: BaseDispatchChannel_receive_def)

text \<open>
  Claim C4 at the input where the code departs from it: \<^verbatim>\<open>BaseInboundChannel\<close> overrides
  \<^verbatim>\<open>receive\<close>, not \<^verbatim>\<open>send\<close>. On an inbound channel \<^verbatim>\<open>send\<close> runs the abstract body of
  \<^verbatim>\<open>BaseChannel\<close>, and it is \<^verbatim>\<open>receive\<close> that raises the channel-direction error.
\<close>

theorem inbound_send_not_rejected:
  "send slack_send BaseInboundChannel news = Inl (Exc NotImplementedError []) \<and>
   receive BaseInboundChannel = Inl (Exc RuntimeError (py ''Dispatch channels cannot receive messages.''))"
  by (simp add: BaseChannel_send_def BaseInboundChannel_receive_def)


section \<open>Properties of the providers\<close>

text \<open>
  Claim C8, as the code has it. A name that is not a key of the registry raises
  \<^verbatim>\<open>ModelNotFoundError\<close> with the message \<^verbatim>\<open>Provider <name> not found.\<close>; a name that
  is a key yields the provider registered under it.
\<close>

theorem get_provider_registry:
  "(PROVIDERS name = None \<longrightarrow>
      get_provider name = Inl (Exc ModelNotFoundError (py ''Provider '' @ name @ py '' not found.''))) \<and>
   (\<forall>p. PROVIDERS name = Some p \<longrightarrow> get_provider name = Inr p)"
  by (simp add: get_provider_def)

theorem get_provider_registry_witness:
  "PROVIDERS (py ''openai'') = Some OpenAIProvider \<and> get_provider (py ''openai'') = Inr OpenAIProvider \<and>
   PROVIDERS (py ''anthropic'') = None \<and>
   get_provider (py ''anthropic'') = Inl (Exc ModelNotFoundError (py ''Provider '' @ py ''anthropic'' @ py '' not found.''))"
proof -
  have a: "PROVIDERS (py ''openai'') = Some OpenAIProvider" by (simp add: PROVIDERS_def py_def)
  have b: "PROVIDERS (py ''anthropic'') = None" by (simp add: PROVIDERS_def py_def)
  from get_provider_registry [of "py ''openai''"] get_provider_registry [of "py ''anthropic''"] a b
  show ?thesis by simp
qed

text \<open>
  An unknown provider name does not raise an error of a kind of its own: what is raised
  is a \<^verbatim>\<open>ModelNotFoundError\<close>, the class of the exception that the body of \<^verbatim>\<open>call\<close>
  raises for a model the catalog does not list.
\<close>

theorem unknown_provider_is_ModelNotFoundError:
  "get_provider (py ''anthropic'') = Inl (Exc ModelNotFoundError (py ''Provider anthropic not found.'')) \<and>
   fst (call_body (\<lambda>s. s) \<lparr>models_list = Inr [py ''Google: Gemini Flash 1.5''], chat_create = \<lambda>m p. Inr []\<rparr>
          (py ''gpt-4o'') (py ''article''))
     = Inl (Exc ModelNotFoundError (py ''Model gpt-4o not found.''))"
  by (simp add: get_provider_def PROVIDERS_def call_body_def check_model_exists_def py_def
      strip_def last_segment_def isspace_def)

text \<open>
  Claim C3 at the inputs where the code departs from it: when the catalog does not list
  the model, the catalog is requested twice with a wait in between, no completion is
  requested, and the caller gets a \<^verbatim>\<open>RetryError\<close> that wraps the
  \<^verbatim>\<open>ModelNotFoundError\<close>.
\<close>

theorem model_not_found_is_retried:
  assumes "models_list self = Inr names"
    and "lower model_name \<notin> set (map (\<lambda>name. lower (strip (last_segment name))) names)"
  shows "BaseLLMProvider_call lower self model_name user_prompt =
           (Inl (RetryError (Exc ModelNotFoundError (py ''Model '' @ model_name @ py '' not found.''))),
            [ModelsList, Sleep, ModelsList])"
  using assms by (simp add: BaseLLMProvider_call_def call_body_def check_model_exists_def)

theorem model_not_found_is_retried_witness:
  "BaseLLMProvider_call (\<lambda>s. s) \<lparr>models_list = Inr [py ''Google: Gemini Flash 1.5''], chat_create = \<lambda>m p. Inr (py ''ok'')\<rparr>
      (py ''gpt-4o'') (py ''article'')
   = (Inl (RetryError (Exc ModelNotFoundError (py ''Model '' @ py ''gpt-4o'' @ py '' not found.''))),
      [ModelsList, Sleep, ModelsList])"
proof -
  have "(\<lambda>s. s) (py ''gpt-4o'') \<notin> set (map (\<lambda>name. (\<lambda>s. s) (strip (last_segment name))) [py ''Google: Gemini Flash 1.5''])"
    by (simp add: py_def strip_def last_segment_def isspace_def)
  from model_not_found_is_retried [of "\<lparr>models_list = Inr [py ''Google: Gemini Flash 1.5''], chat_create = \<lambda>m p. Inr (py ''ok'')\<rparr>"
      "[py ''Google: Gemini Flash 1.5'']" "\<lambda>s. s" "py ''gpt-4o''" "py ''article''", OF _ this]
  show ?thesis by simp
qed


section \<open>Properties of the scrapers\<close>

lemma slice_to_Nil: "slice_to [] k = []"
  by (simp add: slice_to_def)

lemma scrape_loop_eq:
  "scrape_loop dump limit kwargs scrapers (news_list, q, lg) =
     (let kept = concat (map (\<lambda>s. case scrape_impl s kwargs of
                                 Inl e \<Rightarrow> []
                               | Inr news \<Rightarrow> (case limit of None \<Rightarrow> news | Some k \<Rightarrow> slice_to news k))
                          scrapers)
      in (news_list @ kept,
          q\<lparr>queue := queue q @ map dump kept\<rparr>,
          lg @ concat (map (\<lambda>s. case scrape_impl s kwargs of
                                 Inl e \<Rightarrow> [ErrorOccurred (class_name s) e, Traceback e]
                               | Inr news \<Rightarrow> [])
                        scrapers)))"
proof (induction scrapers arbitrary: news_list q lg)
  case Nil
  show ?case by simp
next
  case (Cons s ss)
  have nil: "(case limit of None \<Rightarrow> [] | Some k \<Rightarrow> slice_to [] k) = ([] :: News list)"
    by (cases limit) (simp_all add: slice_to_Nil)
  show ?case
  proof (cases "scrape_impl s kwargs")
    case (Inl e)
    then show ?thesis
      by (simp add: BaseScraper_scrape_def Cons.IH Let_def nil)
  next
    case (Inr news)
    then show ?thesis
      by (simp add: BaseScraper_scrape_def Cons.IH Let_def ListQueue_enqueue_all)
  qed
qed

text \<open>
  Claim C6, as the code has it. A scraper whose \<^verbatim>\<open>_scrape\<close> raises makes the wrapper
  return the empty list and log the error and its traceback; nothing is raised. The run
  of the factory returns, in the order of the scrapers, the lists of the scrapers that
  did not raise, each cut to the limit when a limit is given, puts the serialised form
  of exactly these records on the queue, and logs each failure.
\<close>

theorem scraper_isolation:
  "(scrape_impl s kwargs = Inl e \<longrightarrow>
      BaseScraper_scrape s kwargs = ([], [ErrorOccurred (class_name s) e, Traceback e])) \<and>
   ScraperFactory_scrape dump scrapers q limit kwargs =
     (let kept = concat (map (\<lambda>s. case scrape_impl s kwargs of
                                 Inl e \<Rightarrow> []
                               | Inr news \<Rightarrow> (case limit of None \<Rightarrow> news | Some k \<Rightarrow> slice_to news k))
                          scrapers)
      in (kept,
          q\<lparr>queue := queue q @ map dump kept\<rparr>,
          concat (map (\<lambda>s. case scrape_impl s kwargs of
                            Inl e \<Rightarrow> [ErrorOccurred (class_name s) e, Traceback e]
                          | Inr news \<Rightarrow> [])
                   scrapers)))"
  by (simp add: ScraperFactory_scrape_def scrape_loop_eq BaseScraper_scrape_def Let_def)

theorem scraper_isolation_witness:
  "scrape_impl \<lparr>class_name = py ''A'', scrape_impl = \<lambda>k::unit. Inl (Exc (OtherException 0) (py ''boom''))\<rparr> ()
     = Inl (Exc (OtherException 0) (py ''boom'')) \<and>
   BaseScraper_scrape \<lparr>class_name = py ''A'', scrape_impl = \<lambda>k::unit. Inl (Exc (OtherException 0) (py ''boom''))\<rparr> ()
     = ([], [ErrorOccurred (py ''A'') (Exc (OtherException 0) (py ''boom'')),
             Traceback (Exc (OtherException 0) (py ''boom''))]) \<and>
   ScraperFactory_scrape id'
     [\<lparr>class_name = py ''A'', scrape_impl = \<lambda>k::unit. Inl (Exc (OtherException 0) (py ''boom''))\<rparr>,
      \<lparr>class_name = py ''B'', scrape_impl = \<lambda>k::unit. Inr
         [News_init (py ''t1'') [] (py ''u1'') (py ''1'') (py ''B'') (py ''now''),
          News_init (py ''t2'') [] (py ''u2'') (py ''2'') (py ''B'') (py ''now'')]\<rparr>]
     (ListQueue_init (py ''llm-queue'')) None ()
   = ([News_init (py ''t1'') [] (py ''u1'') (py ''1'') (py ''B'') (py ''now''),
       News_init (py ''t2'') [] (py ''u2'') (py ''2'') (py ''B'') (py ''now'')],
      \<lparr>queue_name = py ''llm-queue'', queue = [py ''1'', py ''2'']\<rparr>,
      [ErrorOccurred (py ''A'') (Exc (OtherException 0) (py ''boom'')),
       Traceback (Exc (OtherException 0) (py ''boom''))])"
proof -
  let ?A = "\<lparr>class_name = py ''A'', scrape_impl = \<lambda>k::unit. Inl (Exc (OtherException 0) (py ''boom''))\<rparr>"
  let ?n1 = "News_init (py ''t1'') [] (py ''u1'') (py ''1'') (py ''B'') (py ''now'')"
  let ?n2 = "News_init (py ''t2'') [] (py ''u2'') (py ''2'') (py ''B'') (py ''now'')"
  let ?B = "\<lparr>class_name = py ''B'', scrape_impl = \<lambda>k::unit. Inr [?n1, ?n2]\<rparr>"
  have i1: "id' ?n1 = py ''1''" and i2: "id' ?n2 = py ''2''"
    by (simp_all add: News_init_def)
  from scraper_isolation [where s = ?A and kwargs = "()" and e = "Exc (OtherException 0) (py ''boom'')"
      and dump = id' and scrapers = "[?A, ?B]" and q = "ListQueue_init (py ''llm-queue'')"
      and limit = None]
  show ?thesis by (simp add: Let_def ListQueue_init_def i1 i2)
qed

text \<open>
  With the limit 1, a surviving scraper that returns two records contributes only the
  first to the result of the run.
\<close>

theorem limit_truncates_survivors:
  "BaseScraper_scrape \<lparr>class_name = py ''B'', scrape_impl = \<lambda>k::unit. Inr
         [News_init (py ''t1'') [] (py ''u1'') (py ''1'') (py ''B'') (py ''now''),
          News_init (py ''t2'') [] (py ''u2'') (py ''2'') (py ''B'') (py ''now'')]\<rparr> ()
     = ([News_init (py ''t1'') [] (py ''u1'') (py ''1'') (py ''B'') (py ''now''),
         News_init (py ''t2'') [] (py ''u2'') (py ''2'') (py ''B'') (py ''now'')], []) \<and>
   fst (ScraperFactory_scrape id'
     [\<lparr>class_name = py ''A'', scrape_impl = \<lambda>k::unit. Inl (Exc (OtherException 0) (py ''boom''))\<rparr>,
      \<lparr>class_name = py ''B'', scrape_impl = \<lambda>k::unit. Inr
         [News_init (py ''t1'') [] (py ''u1'') (py ''1'') (py ''B'') (py ''now''),
          News_init (py ''t2'') [] (py ''u2'') (py ''2'') (py ''B'') (py ''now'')]\<rparr>]
     (ListQueue_init (py ''llm-queue'')) (Some 1) ())
   = [News_init (py ''t1'') [] (py ''u1'') (py ''1'') (py ''B'') (py ''now'')]"
  by (simp add: ScraperFactory_scrape_def BaseScraper_scrape_def slice_to_def)


section \<open>Properties of normalize\_text\<close>

lemma re_sub_nonspace: "\<not> isspace x \<Longrightarrow> re_sub (x # xs) = x # re_sub xs"
  by (cases xs) (simp_all add: re_sub.simps)

lemma re_sub_Cons: "\<exists>ws. re_sub (x # xs) = x # ws"
  by (cases xs) (simp_all add: re_sub.simps)

lemma re_sub_eq_Nil [simp]: "re_sub xs = [] \<longleftrightarrow> xs = []"
proof (cases xs)
  case Nil
  then show ?thesis by (simp add: re_sub.simps)
next
  case (Cons y ys)
  obtain ws where "re_sub (y # ys) = y # ws" using re_sub_Cons by blast
  with Cons show ?thesis by simp
qed

lemma re_sub_nonspace_prefix:
  "\<forall>c\<in>set p. \<not> isspace c \<Longrightarrow> re_sub (p @ s) = p @ re_sub s"
  by (induction p) (simp_all add: re_sub_nonspace)

lemma runs_concat: "concat (runs xs) = xs"
  by (induction xs rule: runs.induct) (simp_all add: runs.simps)

lemma re_sub_step:
  "re_sub (x # xs) = collapse_run (x # takeWhile (\<lambda>c. c = x) xs) @ re_sub (dropWhile (\<lambda>c. c = x) xs)"
proof (cases "isspace x")
  case True
  show ?thesis
  proof (cases xs)
    case Nil
    then show ?thesis by (simp add: re_sub.simps collapse_run_def)
  next
    case (Cons y ys)
    with True show ?thesis by (simp add: re_sub.simps collapse_run_def)
  qed
next
  case False
  have all: "\<forall>c\<in>set (x # takeWhile (\<lambda>c. c = x) xs). \<not> isspace c"
    using False by (auto dest: set_takeWhileD)
  have "collapse_run (x # takeWhile (\<lambda>c. c = x) xs) = x # takeWhile (\<lambda>c. c = x) xs"
    using False by (simp add: collapse_run_def split: list.splits)
  moreover have "re_sub ((x # takeWhile (\<lambda>c. c = x) xs) @ dropWhile (\<lambda>c. c = x) xs)
        = (x # takeWhile (\<lambda>c. c = x) xs) @ re_sub (dropWhile (\<lambda>c. c = x) xs)"
    using re_sub_nonspace_prefix [OF all] .
  ultimately show ?thesis by simp
qed

lemma re_sub_runs: "re_sub xs = concat (map collapse_run (runs xs))"
proof (induction xs rule: runs.induct)
  case 1
  show ?case by (simp add: runs.simps re_sub.simps)
next
  case (2 x xs)
  then show ?case by (simp add: runs.simps re_sub_step)
qed

lemma re_sub_no_run: "\<not> ws_run xs \<Longrightarrow> re_sub xs = xs"
  by (induction xs rule: re_sub.induct) (auto simp: re_sub.simps)

lemma ws_run_re_sub: "\<not> ws_run (re_sub xs)"
proof (induction xs rule: re_sub.induct)
  case 1
  show ?case by (simp add: re_sub.simps)
next
  case (2 x)
  show ?case by (simp add: re_sub.simps)
next
  case (3 x y xs)
  show ?case
  proof (cases "isspace x \<and> y = x")
    case True
    let ?r = "dropWhile (\<lambda>c. c = x) xs"
    have eq: "re_sub (x # y # xs) = x # re_sub ?r" using True by (simp add: re_sub.simps)
    show ?thesis
    proof (cases ?r)
      case Nil
      with eq show ?thesis by (simp add: re_sub.simps)
    next
      case (Cons z zs)
      have "z \<noteq> x" using hd_dropWhile [of "\<lambda>c. c = x" xs] Cons by auto
      moreover obtain ws where ws: "re_sub (z # zs) = z # ws" using re_sub_Cons by blast
      moreover have "\<not> ws_run (re_sub ?r)" using 3(1) True by simp
      ultimately show ?thesis using eq Cons by simp
    qed
  next
    case False
    then have eq: "re_sub (x # y # xs) = x # re_sub (y # xs)" by (auto simp: re_sub.simps)
    obtain ws where ws: "re_sub (y # xs) = y # ws" using re_sub_Cons by blast
    have "\<not> ws_run (re_sub (y # xs))" using 3(2) False by blast
    with eq ws False show ?thesis by auto
  qed
qed

lemma ws_run_iff: "ws_run xs \<longleftrightarrow> (\<exists>a c b. xs = a @ [c, c] @ b \<and> isspace c)"
proof
  show "ws_run xs \<Longrightarrow> \<exists>a c b. xs = a @ [c, c] @ b \<and> isspace c"
  proof (induction xs rule: ws_run.induct)
    case (1 x y xs)
    show ?case
    proof (cases "isspace x \<and> y = x")
      case True
      then have "x # y # xs = [] @ [x, x] @ xs \<and> isspace x" by simp
      then show ?thesis by blast
    next
      case False
      with 1 obtain a c b where "y # xs = a @ [c, c] @ b" "isspace c" by auto
      then have "x # y # xs = (x # a) @ [c, c] @ b \<and> isspace c" by simp
      then show ?thesis by blast
    qed
  qed simp_all
next
  assume "\<exists>a c b. xs = a @ [c, c] @ b \<and> isspace c"
  then obtain a c b where xs: "xs = a @ [c, c] @ b" and c: "isspace c" by blast
  have "ws_run (a @ c # c # b)"
  proof (induction a)
    case Nil
    show ?case using c by simp
  next
    case (Cons z zs)
    then show ?case by (cases "zs @ c # c # b") auto
  qed
  with xs show "ws_run xs" by simp
qed

lemma strip_infix: "\<exists>p q. xs = p @ strip xs @ q"
proof -
  let ?d = "dropWhile isspace xs"
  have 1: "xs = takeWhile isspace xs @ ?d" by simp
  have "?d = rev (rev ?d)" by simp
  also have "\<dots> = rev (takeWhile isspace (rev ?d) @ dropWhile isspace (rev ?d))"
    by (simp only: takeWhile_dropWhile_id)
  also have "\<dots> = rev (dropWhile isspace (rev ?d)) @ rev (takeWhile isspace (rev ?d))"
    by (simp only: rev_append)
  finally have 2: "?d = strip xs @ rev (takeWhile isspace (rev ?d))"
    by (simp only: strip_def)
  from 1 2 have "xs = takeWhile isspace xs @ strip xs @ rev (takeWhile isspace (rev ?d))"
    by simp
  then show ?thesis by blast
qed

lemma ws_run_strip: "ws_run (strip xs) \<Longrightarrow> ws_run xs"
proof -
  assume "ws_run (strip xs)"
  then obtain a c b where s: "strip xs = a @ [c, c] @ b" and c: "isspace c"
    unfolding ws_run_iff by blast
  obtain p q where "xs = p @ strip xs @ q" using strip_infix by blast
  with s have "xs = (p @ a) @ [c, c] @ (b @ q)" by simp
  with c show "ws_run xs" unfolding ws_run_iff by blast
qed

lemma last_dropWhile:
  assumes "dropWhile P xs \<noteq> []"
  shows "last (dropWhile P xs) = last xs"
proof -
  have "last (takeWhile P xs @ dropWhile P xs) = last (dropWhile P xs)"
    using assms by (rule last_appendR)
  then show ?thesis by (simp only: takeWhile_dropWhile_id)
qed

lemma strip_ends:
  assumes "strip xs \<noteq> []"
  shows "\<not> isspace (hd (strip xs)) \<and> \<not> isspace (last (strip xs))"
proof -
  let ?d = "dropWhile isspace xs"
  let ?l = "dropWhile isspace (rev ?d)"
  from assms have l: "?l \<noteq> []" by (simp add: strip_def)
  have d: "?d \<noteq> []"
  proof
    assume "?d = []"
    then have "?l = dropWhile isspace (rev [])"
      by (rule arg_cong [where f = "\<lambda>z. dropWhile isspace (rev z)"])
    with l show False by simp
  qed
  have "last (strip xs) = hd ?l" using l by (simp add: strip_def last_rev)
  moreover have "\<not> isspace (hd ?l)" using l hd_dropWhile by blast
  moreover have "hd (strip xs) = last ?l" using l by (simp add: strip_def hd_rev)
  moreover have "last ?l = last (rev ?d)"
    using l by (rule last_dropWhile)
  moreover have "last (rev ?d) = hd ?d" using d by (simp add: last_rev)
  moreover have "\<not> isspace (hd ?d)" using d hd_dropWhile by blast
  ultimately show ?thesis by simp
qed

text \<open>
  Claim C9. \<open>normalize_text\<close> is the normalisation the specification words: each run
  of two or more copies of one whitespace character becomes a single copy, all other
  runs are kept as they are, and the result is stripped of leading and trailing
  whitespace. A text without such a run (a space followed by a tab, say) is only
  stripped. The result has no such run left and neither starts nor ends with
  whitespace.
\<close>

theorem normalize_text_spec:
  "normalize_text text = spec_normalize text \<and>
   (\<not> ws_run text \<longrightarrow> normalize_text text = strip text) \<and>
   \<not> ws_run (normalize_text text) \<and>
   (normalize_text text \<noteq> [] \<longrightarrow>
      \<not> isspace (hd (normalize_text text)) \<and> \<not> isspace (last (normalize_text text)))"
  using ws_run_strip [of "re_sub text"] ws_run_re_sub [of "text"] strip_ends [of "re_sub text"]
  by (auto simp: normalize_text_def spec_normalize_def re_sub_runs [symmetric] re_sub_no_run)

theorem normalize_text_spec_witness:
  "normalize_text [32, 97, 32, 32, 9, 9, 32, 9, 98, 10, 10] = [97, 32, 9, 32, 9, 98] \<and>
   spec_normalize [32, 97, 32, 32, 9, 9, 32, 9, 98, 10, 10] = [97, 32, 9, 32, 9, 98] \<and>
   \<not> ws_run [97, 32, 9, 98] \<and>
   normalize_text [97, 32, 9, 98] = [97, 32, 9, 98]"
proof -
  have a: "normalize_text [32, 97, 32, 32, 9, 9, 32, 9, 98, 10, 10] = [97, 32, 9, 32, 9, 98]"
    by (simp add: normalize_text_def strip_def re_sub.simps isspace_def)
  have b: "\<not> ws_run [97, 32, 9, 98]"
    by (simp add: isspace_def)
  have c: "strip [97, 32, 9, 98] = [97, 32, 9, 98]"
    by (simp add: strip_def isspace_def)
  from normalize_text_spec [of "[32, 97, 32, 32, 9, 9, 32, 9, 98, 10, 10]"]
  have "normalize_text [32, 97, 32, 32, 9, 9, 32, 9, 98, 10, 10]
        = spec_normalize [32, 97, 32, 32, 9, 9, 32, 9, 98, 10, 10]"
    by blast
  with a have "spec_normalize [32, 97, 32, 32, 9, 9, 32, 9, 98, 10, 10] = [97, 32, 9, 32, 9, 98]"
    by simp
  moreover from normalize_text_spec [of "[97, 32, 9, 98]"]
  have "\<not> ws_run [97, 32, 9, 98] \<longrightarrow> normalize_text [97, 32, 9, 98] = strip [97, 32, 9, 98]"
    by blast
  with b c have "normalize_text [97, 32, 9, 98] = [97, 32, 9, 98]"
    by simp
  ultimately show ?thesis using a b by simp
qed


section \<open>Properties of the summarizer\<close>

subsection \<open>Normalisation and fences\<close>



















lemma re_sub_Nil [simp]: "re_sub [] = []"
  by (simp add: re_sub.simps)





















subsection \<open>What the parser receives\<close>






subsection \<open>Extraction of the JSON payload\<close>











end
